theory Spec2Isabelle
  imports Main "HOL-Library.Word"
begin

section \<open>The zeroizer of CUtil: \<^verbatim>\<open>c_zeroize\<close>\<close>

text \<open>
  The whole program is one C function (Sources/CUtil/zeroize.c):
  \<^verbatim>\<open>
  void c_zeroize(void *s, size_t n)
  {
      memset(s, 0, n);
      __asm__ __volatile__("" : : "r"(s) : "memory");
  }
  \<close>
  It is embedded as a function from the memory before the call to the outcome of the
  call. Pointers and \<^verbatim>\<open>size_t\<close> are machine words of the same width; the width is
  fixed by the platform's headers, not by this repository, so it is the type parameter
  \<open>'w\<close> of every definition (64 on the platforms the package is built for).
\<close>

subsection \<open>Memory and outcomes\<close>

type_synonym byte = "8 word"

text \<open>
  The memory holds one byte at every address and records which addresses the caller may
  write. The second field is what "a valid, writable region" refers to; nothing in
  \<^verbatim>\<open>c_zeroize\<close> changes it, since the function neither allocates nor frees.
\<close>

record 'a memory =
  bytes :: "'a \<Rightarrow> byte"
  writable :: "'a \<Rightarrow> bool"

text \<open>
  A \<^verbatim>\<open>void\<close> function either returns, leaving a memory behind and no value, or it
  has stored through a pointer that is not writable. C gives the latter no meaning
  (undefined behaviour); it is an outcome of its own and carries no state.
\<close>

datatype 'st outcome = Returns 'st | Undefined_behaviour

text \<open>Sequencing of two statements: the second runs in the memory the first left.\<close>

fun and_then :: "'st outcome \<Rightarrow> ('st \<Rightarrow> 'st outcome) \<Rightarrow> 'st outcome" where
  "and_then (Returns h) f = f h"
| "and_then Undefined_behaviour f = Undefined_behaviour"

subsection \<open>The two statements of the body\<close>

text \<open>
  \<^verbatim>\<open>memset(s, c, n)\<close> of the C library stores \<^verbatim>\<open>(unsigned char)c\<close> into each of the
  first \<^verbatim>\<open>n\<close> bytes at \<^verbatim>\<open>s\<close>. The loop below stores them in ascending order, one byte
  per iteration, and is undefined at the first byte that is not writable. The pointer
  moves by machine addition, and a call with \<^verbatim>\<open>n = 0\<close> stores nothing. The pointer that
  \<^verbatim>\<open>memset\<close> returns is discarded by \<^verbatim>\<open>c_zeroize\<close> and is not modelled.
\<close>

fun memset_loop :: "('w::len) word memory \<Rightarrow> 'w word \<Rightarrow> byte \<Rightarrow> nat \<Rightarrow> 'w word memory outcome" where
  "memset_loop h s c 0 = Returns h"
| "memset_loop h s c (Suc k) =
     (if writable h s
      then memset_loop (h\<lparr>bytes := (bytes h)(s := c)\<rparr>) (s + 1) c k
      else Undefined_behaviour)"

definition memset :: "('w::len) word memory \<Rightarrow> 'w word \<Rightarrow> int \<Rightarrow> 'w word \<Rightarrow> 'w word memory outcome" where
  "memset h s c n = memset_loop h s (word_of_int c) (unat n)"

text \<open>
  The \<^verbatim>\<open>asm\<close> statement has an empty instruction template, the pointer as its only
  input operand and \<^verbatim>\<open>"memory"\<close> as its only clobber. It emits no instruction: at run
  time it reads and writes nothing. What it tells the compiler is not a run-time effect.
\<close>

definition asm_barrier :: "('w::len) word memory \<Rightarrow> 'w word \<Rightarrow> 'w word memory outcome" where
  "asm_barrier h s = Returns h"

definition c_zeroize :: "('w::len) word memory \<Rightarrow> 'w word \<Rightarrow> 'w word \<Rightarrow> 'w word memory outcome" where
  "c_zeroize h s n = and_then (memset h s 0 n) (\<lambda>h'. asm_barrier h' s)"

subsection \<open>Regions\<close>

text \<open>
  The addresses \<open>s, s + 1, \<dots>\<close> of the first \<open>k\<close> bytes at \<open>s\<close>; the region
  \<open>[s, s + n)\<close> is the one of length \<open>unat n\<close>. A region is valid in a memory when
  each of its bytes is writable there.
\<close>

definition offsets :: "('w::len) word \<Rightarrow> nat \<Rightarrow> 'w word set" where
  "offsets s k = (\<lambda>i. s + of_nat i) ` {..<k}"

definition region :: "('w::len) word \<Rightarrow> 'w word \<Rightarrow> 'w word set" where
  "region s n = offsets s (unat n)"

definition valid_region :: "('w::len) word memory \<Rightarrow> 'w word \<Rightarrow> 'w word \<Rightarrow> bool" where
  "valid_region h s n = (\<forall>a \<in> region s n. writable h a)"

text \<open>The memory \<open>h\<close> with the byte \<open>c\<close> at every address of \<open>R\<close>.\<close>

definition fill :: "'a memory \<Rightarrow> 'a set \<Rightarrow> byte \<Rightarrow> 'a memory" where
  "fill h R c = h\<lparr>bytes := (\<lambda>a. if a \<in> R then c else bytes h a)\<rparr>"

subsection \<open>Successive calls\<close>

text \<open>
  A caller that invokes \<^verbatim>\<open>c_zeroize\<close> several times, one call after the other. The
  source file declares no object of static storage duration, so the memory is all that
  passes from one call to the next.
\<close>

fun run_calls :: "('w::len) word memory \<Rightarrow> ('w word \<times> 'w word) list \<Rightarrow> 'w word memory outcome" where
  "run_calls h [] = Returns h"
| "run_calls h ((s, n) # cs) = and_then (c_zeroize h s n) (\<lambda>h'. run_calls h' cs)"

subsection \<open>The primitives the body calls\<close>

text \<open>
  The body of \<^verbatim>\<open>c_zeroize\<close> as the sequence of primitives it invokes, with their
  arguments. The file has no conditional compilation, so the sequence is the same under
  every toolchain. \<open>Call_memset_s\<close> stands for \<^verbatim>\<open>memset_s(s, smax, c, n)\<close> of C11
  Annex K, the secure zero-fill that the comment in the body names.
\<close>

datatype 'a prim_call =
    Call_memset 'a int 'a
  | Call_memset_s 'a 'a int 'a
  | Call_asm_barrier 'a

definition c_zeroize_calls :: "('w::len) word \<Rightarrow> 'w word \<Rightarrow> 'w word prim_call list" where
  "c_zeroize_calls s n = [Call_memset s 0 n, Call_asm_barrier s]"

fun is_secure_zero :: "'a prim_call \<Rightarrow> bool" where
  "is_secure_zero (Call_memset_s s smax c n) = True"
| "is_secure_zero (Call_memset s c n) = False"
| "is_secure_zero (Call_asm_barrier s) = False"

text \<open>What the toolchain offers: whether \<^verbatim>\<open>memset_s\<close> is available.\<close>

record toolchain =
  has_memset_s :: bool

text \<open>
  The selection as the specification words it: a secure zero-fill primitive when the
  toolchain has one, and only otherwise the plain fill followed by the barrier.
\<close>

definition spec_overwrite_policy :: "toolchain \<Rightarrow> ('w::len) word \<Rightarrow> 'w word \<Rightarrow> 'w word prim_call list \<Rightarrow> bool" where
  "spec_overwrite_policy tc s n cs =
     (if has_memset_s tc then list_ex is_secure_zero cs
      else cs = [Call_memset s 0 n, Call_asm_barrier s])"

subsection \<open>Concrete memories\<close>

text \<open>
  A 32-byte buffer at address \<open>0x1000\<close>, every byte of the memory \<open>0xFF\<close>; and the same
  memory with other contents in the buffer.
\<close>

definition secret_buf :: "64 word memory" where
  "secret_buf = \<lparr>bytes = (\<lambda>a. 0xFF), writable = (\<lambda>a. 0x1000 \<le> a \<and> a < 0x1020)\<rparr>"

definition other_buf :: "64 word memory" where
  "other_buf = \<lparr>bytes = (\<lambda>a. if 0x1000 \<le> a \<and> a < 0x1020 then 0x7A else 0xFF),
                 writable = (\<lambda>a. 0x1000 \<le> a \<and> a < 0x1020)\<rparr>"

section \<open>A closed form of the call\<close>

lemma offsets_0: "offsets s 0 = {}"
  by (simp add: offsets_def)

lemma offsets_Suc: "offsets s (Suc k) = insert s (offsets (s + 1) k)"
  by (simp add: offsets_def lessThan_Suc_eq_insert_0 image_image ac_simps)

lemma fill_empty: "fill h {} c = h"
  by (simp add: fill_def)

lemma fill_step:
  "fill (h\<lparr>bytes := (bytes h)(s := c)\<rparr>) R c = fill h (insert s R) c"
  by (auto simp: fill_def fun_eq_iff)

lemma memset_loop_closed:
  "memset_loop h s c k =
     (if \<forall>a \<in> offsets s k. writable h a then Returns (fill h (offsets s k) c)
      else Undefined_behaviour)"
proof (induction k arbitrary: h s)
  case 0
  show ?case by (simp add: offsets_0 fill_empty)
next
  case (Suc k)
  show ?case by (simp add: Suc.IH offsets_Suc fill_step)
qed

lemma c_zeroize_closed:
  "c_zeroize h s n =
     (if valid_region h s n then Returns (fill h (region s n) 0) else Undefined_behaviour)"
  by (simp add: c_zeroize_def memset_def asm_barrier_def memset_loop_closed
      valid_region_def region_def)

lemma fill_bytes_in: "a \<in> R \<Longrightarrow> bytes (fill h R c) a = c"
  by (simp add: fill_def)

lemma fill_bytes_out: "a \<notin> R \<Longrightarrow> bytes (fill h R c) a = bytes h a"
  by (simp add: fill_def)

lemma fill_writable: "writable (fill h R c) = writable h"
  by (simp add: fill_def)

lemma fill_only_bytes: "fill h R c = h\<lparr>bytes := bytes (fill h R c)\<rparr>"
  by (simp add: fill_def)

lemma fill_fill: "fill (fill h A c) B c = fill h (A \<union> B) c"
  by (auto simp: fill_def fun_eq_iff)

lemma valid_region_fill: "valid_region (fill h R c) s n = valid_region h s n"
  by (simp add: valid_region_def fill_writable)

lemma fill_cong_outside:
  "writable h2 = writable h1 \<Longrightarrow> \<forall>a. a \<notin> R \<longrightarrow> bytes h2 a = bytes h1 a
   \<Longrightarrow> fill h1 R c = fill h2 R c"
  by (cases h1, cases h2) (auto simp: fill_def fun_eq_iff)

section \<open>Regions as address intervals, and their splitting\<close>

text \<open>
  A region that does not run past the end of the address space is the half-open
  interval of addresses from \<open>s\<close> up to \<open>s + n\<close>.
\<close>

lemma region_interval:
  fixes s n :: "('w::len) word"
  assumes nowrap: "unat s + unat n \<le> 2 ^ LENGTH('w)"
  shows "region s n = {a. s \<le> a \<and> unat a < unat s + unat n}"
proof (intro set_eqI iffI)
  fix a assume "a \<in> region s n"
  then obtain i where i: "i < unat n" and a: "a = s + of_nat i"
    by (auto simp: region_def offsets_def)
  from i nowrap have lt: "unat s + i < 2 ^ LENGTH('w)" by simp
  then have "i < 2 ^ LENGTH('w)" by simp
  then have ui: "unat (of_nat i :: 'w word) = i" by (simp add: unat_of_nat)
  with lt have "unat (s + of_nat i) = unat s + i"
    using unat_add_lem [of s "of_nat i"] by simp
  with i a show "a \<in> {a. s \<le> a \<and> unat a < unat s + unat n}"
    by (simp add: word_le_nat_alt)
next
  fix a assume "a \<in> {a. s \<le> a \<and> unat a < unat s + unat n}"
  then have le: "unat s \<le> unat a" and lt: "unat a < unat s + unat n"
    by (simp_all add: word_le_nat_alt)
  let ?i = "unat a - unat s"
  from le lt have "?i < unat n" by simp
  moreover from le have "s + of_nat ?i = a" by simp
  ultimately show "a \<in> region s n"
    by (force simp: region_def offsets_def)
qed

lemma lessThan_split:
  fixes a b :: nat
  assumes "a \<le> b"
  shows "{..<b} = {..<a} \<union> (\<lambda>j. a + j) ` {..<b - a}"
proof (intro set_eqI iffI)
  fix x assume x: "x \<in> {..<b}"
  show "x \<in> {..<a} \<union> (\<lambda>j. a + j) ` {..<b - a}"
  proof (cases "x < a")
    case True
    then show ?thesis by simp
  next
    case False
    with x have "x - a \<in> {..<b - a}" and "x = a + (x - a)" by auto
    then show ?thesis by blast
  qed
next
  fix x assume "x \<in> {..<a} \<union> (\<lambda>j. a + j) ` {..<b - a}"
  with assms show "x \<in> {..<b}" by auto
qed

lemma offsets_add: "offsets s (a + b) = offsets s a \<union> offsets (s + of_nat a) b"
proof -
  have "{..<a + b} = {..<a} \<union> (\<lambda>j. a + j) ` {..<b}"
    using lessThan_split [of a "a + b"] by simp
  then show ?thesis
    by (simp add: offsets_def image_Un image_image add.assoc)
qed

lemma region_split:
  assumes "k \<le> n"
  shows "region s n = region s k \<union> region (s + k) (n - k)"
proof -
  from assms have "unat (n - k) = unat n - unat k" and "unat k \<le> unat n"
    by (simp_all add: unat_sub word_le_nat_alt)
  then have "unat n = unat k + unat (n - k)" by simp
  then show ?thesis
    using offsets_add [of s "unat k" "unat (n - k)"] by (simp add: region_def)
qed

lemma valid_region_split:
  "k \<le> n \<Longrightarrow> valid_region h s n = (valid_region h s k \<and> valid_region h (s + k) (n - k))"
  by (auto simp: valid_region_def region_split)

section \<open>Sequences of calls\<close>

lemma and_then_Returns: "and_then r Returns = r"
  by (cases r) simp_all

lemma run_calls_append:
  "run_calls h (cs @ ds) = and_then (run_calls h cs) (\<lambda>h'. run_calls h' ds)"
proof (induction cs arbitrary: h)
  case Nil
  show ?case by simp
next
  case (Cons c cs)
  obtain s n where c: "c = (s, n)" by (cases c)
  show ?case by (cases "c_zeroize h s n") (simp_all add: c Cons.IH)
qed

lemma c_zeroize_only_bytes:
  "c_zeroize g s n = Returns h \<Longrightarrow> h = g\<lparr>bytes := bytes h\<rparr>"
  by (auto simp: c_zeroize_closed fill_def split: if_splits)

lemma only_bytes_trans:
  "h = h0\<lparr>bytes := b\<rparr> \<Longrightarrow> h0 = g\<lparr>bytes := b0\<rparr> \<Longrightarrow> h = g\<lparr>bytes := b\<rparr>"
  by simp

lemma run_calls_only_bytes:
  "run_calls g cs = Returns h \<Longrightarrow> h = g\<lparr>bytes := bytes h\<rparr>"
proof (induction cs arbitrary: g)
  case Nil
  then show ?case by simp
next
  case (Cons c cs)
  obtain s n where c: "c = (s, n)" by (cases c)
  from Cons.prems c obtain h0 where
    h0: "c_zeroize g s n = Returns h0" and rest: "run_calls h0 cs = Returns h"
    by (cases "c_zeroize g s n") simp_all
  from Cons.IH [OF rest] have "h = h0\<lparr>bytes := bytes h\<rparr>" .
  moreover from c_zeroize_only_bytes [OF h0] have "h0 = g\<lparr>bytes := bytes h0\<rparr>" .
  ultimately show ?case by (rule only_bytes_trans)
qed

lemma only_bytes_writable: "h = g\<lparr>bytes := b\<rparr> \<Longrightarrow> writable h = writable g"
  by simp

lemma run_calls_valid_region:
  assumes "run_calls g cs = Returns h"
  shows "valid_region h s n = valid_region g s n"
proof -
  have "writable h = writable g"
    using run_calls_only_bytes [OF assms] by (rule only_bytes_writable)
  then show ?thesis by (simp add: valid_region_def)
qed

section \<open>The concrete buffer\<close>

lemma region_secret_buf: "region (0x1000 :: 64 word) 32 = {a. 0x1000 \<le> a \<and> a < 0x1020}"
  by (simp add: region_interval word_less_nat_alt)

lemma valid_secret_buf: "valid_region secret_buf 0x1000 32"
  by (simp add: valid_region_def region_secret_buf secret_buf_def)

lemma valid_sub_region_secret_buf:
  assumes "unat s + unat n \<le> 2 ^ 64" and "0x1000 \<le> s" and "unat s + unat n \<le> 0x1020"
  shows "valid_region secret_buf s n"
  using assms
  by (auto simp: valid_region_def region_interval secret_buf_def word_less_nat_alt word_le_nat_alt)

lemma invalid_secret_buf: "\<not> valid_region secret_buf 0x1010 32"
proof -
  have "(0x1020 :: 64 word) \<in> region 0x1010 32"
    by (simp add: region_interval)
  moreover have "\<not> writable secret_buf 0x1020"
    by (simp add: secret_buf_def)
  ultimately show ?thesis by (auto simp: valid_region_def)
qed

lemma run_once_secret_buf:
  "run_calls secret_buf [(0x1000, 32)] = Returns (fill secret_buf (region 0x1000 32) 0)"
  by (simp add: c_zeroize_closed valid_secret_buf)

lemma run_twice_secret_buf:
  "run_calls secret_buf [(0x1000, 32), (0x1000, 32)] = Returns (fill secret_buf (region 0x1000 32) 0)"
  by (simp add: c_zeroize_closed valid_secret_buf valid_region_fill fill_fill)

lemma region_middle: "region (0x1008 :: 64 word) 8 = {a. 0x1008 \<le> a \<and> a < 0x1010}"
  by (simp add: region_interval word_less_nat_alt)

lemma valid_secret_buf_middle: "valid_region secret_buf 0x1008 8"
  by (rule valid_sub_region_secret_buf) simp_all

lemma valid_other_buf: "valid_region other_buf 0x1008 8"
proof -
  have "writable other_buf = writable secret_buf"
    by (simp add: other_buf_def secret_buf_def)
  then have "valid_region other_buf 0x1008 8 = valid_region secret_buf 0x1008 8"
    by (simp add: valid_region_def)
  with valid_secret_buf_middle show ?thesis by simp
qed

lemma run_none_other_buf: "run_calls other_buf [] = Returns other_buf"
  by simp

lemma zeroed_secret_buf_first: "bytes (fill secret_buf (region 0x1000 32) 0) 0x1000 = 0"
  by (simp add: fill_def region_secret_buf)

lemma other_buf_first: "bytes other_buf 0x1000 = 0x7A"
  by (simp add: other_buf_def)

section \<open>The contract of the call\<close>

subsection \<open>Erasure\<close>

text \<open>
  Claim C1. For every valid writable region of length \<open>n \<ge> 1\<close> and every initial
  contents, \<^verbatim>\<open>c_zeroize(s, n)\<close> returns, and afterwards every byte of \<open>[s, s + n)\<close> is
  zero.
\<close>

theorem c_zeroize_zeroes_region:
  assumes "valid_region h s n" and "1 \<le> n"
  shows "\<exists>h'. c_zeroize h s n = Returns h' \<and> (\<forall>a \<in> region s n. bytes h' a = 0)"
  using assms by (simp add: c_zeroize_closed fill_bytes_in)

text \<open>The 32-byte buffer of \<open>0xFF\<close> bytes is a valid region, and the call zeroes it.\<close>

theorem c_zeroize_zeroes_region_witness:
  "valid_region secret_buf 0x1000 32 \<and> (1 :: 64 word) \<le> 32
   \<and> (\<exists>h'. c_zeroize secret_buf 0x1000 32 = Returns h' \<and> (\<forall>a \<in> region 0x1000 32. bytes h' a = 0))"
proof -
  have n: "(1 :: 64 word) \<le> 32" by simp
  show ?thesis
    using valid_secret_buf n c_zeroize_zeroes_region [OF valid_secret_buf n] by blast
qed

text \<open>
  Claim C2. With length 0 the call returns for any address, writable or not, and the
  memory after it is the memory before it. The loop of \<open>memset\<close> runs \<open>unat 0 = 0\<close>
  times, so no byte is stored and the pointer is never dereferenced.
\<close>

theorem c_zeroize_length_zero_noop: "c_zeroize h s 0 = Returns h"
  by (simp add: c_zeroize_def memset_def asm_barrier_def)

text \<open>At the null pointer, which is not writable in the concrete memory.\<close>

theorem c_zeroize_length_zero_noop_witness:
  "\<not> writable secret_buf 0 \<and> c_zeroize secret_buf 0 0 = Returns secret_buf"
  using c_zeroize_length_zero_noop [of secret_buf 0] by (simp add: secret_buf_def)

subsection \<open>Which primitive overwrites\<close>

text \<open>
  Under a toolchain without \<^verbatim>\<open>memset_s\<close> the body is the fallback that the
  specification describes.
\<close>

lemma c_zeroize_calls_fallback:
  "spec_overwrite_policy \<lparr>has_memset_s = False\<rparr> s n (c_zeroize_calls s n)"
  by (simp add: spec_overwrite_policy_def c_zeroize_calls_def)

text \<open>
  Claim C3. The specification asks for a secure zero-fill primitive whenever the toolchain
  provides one, and the comment in the body says the same (\<^verbatim>\<open>We'd prefer to use
  memset_s if possible\<close>). The body calls \<^verbatim>\<open>memset\<close> and the barrier under every
  toolchain: where \<^verbatim>\<open>memset_s\<close> is available, the call on the 32-byte buffer does not
  follow the policy.
\<close>

theorem c_zeroize_never_calls_memset_s:
  "\<not> spec_overwrite_policy \<lparr>has_memset_s = True\<rparr> 0x1000 32 (c_zeroize_calls (0x1000 :: 64 word) 32)"
  by (simp add: spec_overwrite_policy_def c_zeroize_calls_def)

subsection \<open>Frame\<close>

text \<open>
  Claim C4. On a valid region the call returns a memory in which every byte outside
  \<open>[s, s + n)\<close> holds the value it held before, and which differs from the memory
  before the call in its bytes only: the set of writable addresses is the same (nothing
  allocated, nothing freed) and there is no other component in which a reference could
  be kept.
\<close>

theorem c_zeroize_frame:
  assumes "valid_region h s n"
  shows "\<exists>h'. c_zeroize h s n = Returns h'
     \<and> (\<forall>a. a \<notin> region s n \<longrightarrow> bytes h' a = bytes h a)
     \<and> h' = h\<lparr>bytes := bytes h'\<rparr>"
  using assms fill_only_bytes [of h "region s n" 0]
  by (simp add: c_zeroize_closed fill_bytes_out)

text \<open>
  Zeroing the 8 bytes in the middle of the buffer leaves the bytes just before and just
  after them at \<open>0xFF\<close>.
\<close>

theorem c_zeroize_frame_witness:
  "valid_region secret_buf 0x1008 8
   \<and> (\<exists>h'. c_zeroize secret_buf 0x1008 8 = Returns h'
        \<and> bytes h' 0x1007 = 0xFF \<and> bytes h' 0x1010 = 0xFF \<and> writable h' = writable secret_buf)"
proof -
  have v: "valid_region secret_buf 0x1008 8"
    by (rule valid_sub_region_secret_buf) simp_all
  have r: "region (0x1008 :: 64 word) 8 = {a. 0x1008 \<le> a \<and> a < 0x1010}"
    by (simp add: region_interval word_less_nat_alt)
  have out: "(0x1007 :: 64 word) \<notin> region 0x1008 8" "(0x1010 :: 64 word) \<notin> region 0x1008 8"
    by (simp_all add: r)
  from c_zeroize_frame [OF v] obtain h' where
    h': "c_zeroize secret_buf 0x1008 8 = Returns h'"
      "\<forall>a. a \<notin> region 0x1008 8 \<longrightarrow> bytes h' a = bytes secret_buf a"
      "h' = secret_buf\<lparr>bytes := bytes h'\<rparr>"
    by blast
  from h'(2) out have "bytes h' 0x1007 = 0xFF" "bytes h' 0x1010 = 0xFF"
    by (simp_all add: secret_buf_def)
  moreover from h'(3) have "writable h' = writable secret_buf"
    by (metis memory.select_convs(2) memory.surjective memory.update_convs(1))
  ultimately show ?thesis using v h'(1) by blast
qed

subsection \<open>Idempotence\<close>

text \<open>
  Claim C5. On a valid region, two calls of \<^verbatim>\<open>c_zeroize(s, n)\<close> in succession return
  the same memory as one call.
\<close>

theorem c_zeroize_idempotent:
  assumes "valid_region h s n"
  shows "and_then (c_zeroize h s n) (\<lambda>h'. c_zeroize h' s n) = c_zeroize h s n
     \<and> (\<exists>h1. c_zeroize h s n = Returns h1)"
  using assms by (simp add: c_zeroize_closed valid_region_fill fill_fill)

theorem c_zeroize_idempotent_witness:
  "valid_region secret_buf 0x1000 32
   \<and> and_then (c_zeroize secret_buf 0x1000 32) (\<lambda>h'. c_zeroize h' 0x1000 32)
       = c_zeroize secret_buf 0x1000 32
   \<and> (\<exists>h1. c_zeroize secret_buf 0x1000 32 = Returns h1)"
  using valid_secret_buf c_zeroize_idempotent [OF valid_secret_buf] by blast

subsection \<open>No error channel\<close>

text \<open>
  Claim C6. For every memory, address and length the call has one of two outcomes and no
  third: it returns (a memory and, being \<^verbatim>\<open>void\<close>, no value) exactly when the
  region is valid, and its behaviour is undefined exactly when the region is not valid.
  No outcome reports an invalid region to the caller.
\<close>

theorem c_zeroize_returns_iff_valid:
  "((\<exists>h'. c_zeroize h s n = Returns h') = valid_region h s n)
   \<and> ((c_zeroize h s n = Undefined_behaviour) = (\<not> valid_region h s n))"
  by (simp add: c_zeroize_closed)

text \<open>
  The whole buffer is valid and the call returns; 32 bytes from the middle of the buffer
  run past its end, and the behaviour is undefined.
\<close>

theorem c_zeroize_returns_iff_valid_witness:
  "valid_region secret_buf 0x1000 32 \<and> (\<exists>h'. c_zeroize secret_buf 0x1000 32 = Returns h')
   \<and> \<not> valid_region secret_buf 0x1010 32 \<and> c_zeroize secret_buf 0x1010 32 = Undefined_behaviour"
  using valid_secret_buf invalid_secret_buf
    c_zeroize_returns_iff_valid [of secret_buf "0x1000" 32]
    c_zeroize_returns_iff_valid [of secret_buf "0x1010" 32]
  by blast

subsection \<open>Determinism and absence of state between calls\<close>

text \<open>
  Claim C8. The call is deterministic and keeps no state between calls. Take any two
  histories of earlier calls, run from any two memories in which the region is valid.
  After either history the call returns. It leaves the same values in the region,
  whatever the histories have left anywhere in memory, and it changes no byte outside
  the region. The memory it returns differs from the memory its history started from in
  the bytes only, so that no call has put anything aside for a later one. And where the
  two histories leave the same memory, the two calls return the same memory.
\<close>

theorem c_zeroize_history_independent:
  assumes "run_calls g1 cs1 = Returns h1" and "run_calls g2 cs2 = Returns h2"
    and "valid_region g1 s n" and "valid_region g2 s n"
  shows "\<exists>h1' h2'. run_calls g1 (cs1 @ [(s, n)]) = Returns h1' \<and> c_zeroize h1 s n = Returns h1'
     \<and> run_calls g2 (cs2 @ [(s, n)]) = Returns h2' \<and> c_zeroize h2 s n = Returns h2'
     \<and> (\<forall>a \<in> region s n. bytes h1' a = bytes h2' a)
     \<and> (\<forall>a. a \<notin> region s n \<longrightarrow> bytes h1' a = bytes h1 a \<and> bytes h2' a = bytes h2 a)
     \<and> h1' = g1\<lparr>bytes := bytes h1'\<rparr> \<and> h2' = g2\<lparr>bytes := bytes h2'\<rparr>
     \<and> (h1 = h2 \<longrightarrow> h1' = h2')"
proof -
  let ?h1' = "fill h1 (region s n) 0" and ?h2' = "fill h2 (region s n) 0"
  from assms have v: "valid_region h1 s n" "valid_region h2 s n"
    by (simp_all add: run_calls_valid_region)
  then have call: "c_zeroize h1 s n = Returns ?h1'" "c_zeroize h2 s n = Returns ?h2'"
    by (simp_all add: c_zeroize_closed)
  with assms(1,2) have run:
    "run_calls g1 (cs1 @ [(s, n)]) = Returns ?h1'" "run_calls g2 (cs2 @ [(s, n)]) = Returns ?h2'"
    by (simp_all add: run_calls_append)
  have inside: "\<forall>a \<in> region s n. bytes ?h1' a = bytes ?h2' a"
    by (simp add: fill_bytes_in)
  have outside: "\<forall>a. a \<notin> region s n \<longrightarrow> bytes ?h1' a = bytes h1 a \<and> bytes ?h2' a = bytes h2 a"
    by (simp add: fill_bytes_out)
  have only: "?h1' = g1\<lparr>bytes := bytes ?h1'\<rparr>" "?h2' = g2\<lparr>bytes := bytes ?h2'\<rparr>"
    using run_calls_only_bytes [OF run(1)] run_calls_only_bytes [OF run(2)] .
  from call run inside outside only show ?thesis by blast
qed

text \<open>
  Two earlier calls on the buffer of \<open>0xFF\<close> bytes, and no earlier call on the buffer of
  \<open>0x7A\<close> bytes, leave different memories. A call on 8 bytes in the middle returns after
  both and leaves the same value there; the first byte of each buffer is what the
  history left. After one earlier call and after two, which leave the same memory, the
  call returns the same memory.
\<close>

theorem c_zeroize_history_independent_witness:
  "run_calls secret_buf [(0x1000, 32), (0x1000, 32)] = Returns (fill secret_buf (region 0x1000 32) 0)
   \<and> run_calls other_buf [] = Returns other_buf
   \<and> valid_region secret_buf 0x1008 8 \<and> valid_region other_buf 0x1008 8
   \<and> fill secret_buf (region 0x1000 32) 0 \<noteq> other_buf
   \<and> (\<exists>h1' h2'. run_calls secret_buf ([(0x1000, 32), (0x1000, 32)] @ [(0x1008, 8)]) = Returns h1'
        \<and> run_calls other_buf ([] @ [(0x1008, 8)]) = Returns h2'
        \<and> bytes h1' 0x1008 = bytes h2' 0x1008
        \<and> bytes h1' 0x1000 = 0 \<and> bytes h2' 0x1000 = 0x7A
        \<and> writable h1' = writable secret_buf \<and> writable h2' = writable other_buf)
   \<and> run_calls secret_buf [(0x1000, 32)] = Returns (fill secret_buf (region 0x1000 32) 0)
   \<and> run_calls secret_buf ([(0x1000, 32)] @ [(0x1008, 8)])
       = run_calls secret_buf ([(0x1000, 32), (0x1000, 32)] @ [(0x1008, 8)])"
proof -
  let ?z = "fill secret_buf (region 0x1000 32) 0"
  have mem: "(0x1008 :: 64 word) \<in> region 0x1008 8" "(0x1000 :: 64 word) \<notin> region 0x1008 8"
    by (simp_all add: region_middle)
  have ne: "?z \<noteq> other_buf"
  proof
    assume "?z = other_buf"
    then have "bytes ?z 0x1000 = bytes other_buf 0x1000" by (rule arg_cong)
    then show False by (simp only: zeroed_secret_buf_first other_buf_first) simp
  qed
  from c_zeroize_history_independent [OF run_twice_secret_buf run_none_other_buf valid_secret_buf_middle valid_other_buf]
  obtain h1' h2' where
    run1: "run_calls secret_buf ([(0x1000, 32), (0x1000, 32)] @ [(0x1008, 8)]) = Returns h1'"
    and run2: "run_calls other_buf ([] @ [(0x1008, 8)]) = Returns h2'"
    and ins: "\<forall>a \<in> region 0x1008 8. bytes h1' a = bytes h2' a"
    and out: "\<forall>a. a \<notin> region 0x1008 8 \<longrightarrow> bytes h1' a = bytes ?z a \<and> bytes h2' a = bytes other_buf a"
    and only1: "h1' = secret_buf\<lparr>bytes := bytes h1'\<rparr>"
    and only2: "h2' = other_buf\<lparr>bytes := bytes h2'\<rparr>"
    by (elim exE conjE) (rule that, assumption+)
  from ins mem(1) have a: "bytes h1' 0x1008 = bytes h2' 0x1008" by (rule bspec)
  from out have "0x1000 \<notin> region (0x1008 :: 64 word) 8 \<longrightarrow>
      bytes h1' 0x1000 = bytes ?z 0x1000 \<and> bytes h2' 0x1000 = bytes other_buf 0x1000"
    by (rule spec)
  then have "bytes h1' 0x1000 = bytes ?z 0x1000 \<and> bytes h2' 0x1000 = bytes other_buf 0x1000"
    using mem(2) by (rule mp)
  then have "bytes h1' 0x1000 = bytes ?z 0x1000" "bytes h2' 0x1000 = bytes other_buf 0x1000"
    by (rule conjunct1, rule conjunct2)
  then have b: "bytes h1' 0x1000 = 0" "bytes h2' 0x1000 = 0x7A"
    by (simp_all only: zeroed_secret_buf_first other_buf_first)
  have w1: "writable h1' = writable secret_buf"
    using only1 by (rule only_bytes_writable)
  have w2: "writable h2' = writable other_buf"
    using only2 by (rule only_bytes_writable)
  have ex: "\<exists>h1' h2'. run_calls secret_buf ([(0x1000, 32), (0x1000, 32)] @ [(0x1008, 8)]) = Returns h1'
        \<and> run_calls other_buf ([] @ [(0x1008, 8)]) = Returns h2'
        \<and> bytes h1' 0x1008 = bytes h2' 0x1008
        \<and> bytes h1' 0x1000 = 0 \<and> bytes h2' 0x1000 = 0x7A
        \<and> writable h1' = writable secret_buf \<and> writable h2' = writable other_buf"
    using run1 run2 a b w1 w2 by (intro exI conjI)
  from c_zeroize_history_independent
    [OF run_once_secret_buf run_twice_secret_buf valid_secret_buf_middle valid_secret_buf_middle]
  obtain k1 k2 where
    k1: "run_calls secret_buf ([(0x1000, 32)] @ [(0x1008, 8)]) = Returns k1"
    and k2: "run_calls secret_buf ([(0x1000, 32), (0x1000, 32)] @ [(0x1008, 8)]) = Returns k2"
    and eq: "?z = ?z \<longrightarrow> k1 = k2"
    by (elim exE conjE) (rule that, assumption+)
  from eq have "k1 = k2" by simp
  with k1 k2 have same: "run_calls secret_buf ([(0x1000, 32)] @ [(0x1008, 8)])
       = run_calls secret_buf ([(0x1000, 32), (0x1000, 32)] @ [(0x1008, 8)])"
    by (simp only:)
  show ?thesis
    using run_twice_secret_buf run_none_other_buf valid_secret_buf_middle valid_other_buf ne ex
      run_once_secret_buf same
    by (intro conjI)
qed

subsection \<open>Decomposition\<close>

text \<open>
  Claim C9. On a valid region and for every \<open>k \<le> n\<close>, the call \<^verbatim>\<open>c_zeroize(s, n)\<close>
  returns the same memory as \<^verbatim>\<open>c_zeroize(s, k)\<close> followed by
  \<^verbatim>\<open>c_zeroize(s + k, n - k)\<close>.
\<close>

theorem c_zeroize_decomposes:
  assumes "valid_region h s n" and "k \<le> n"
  shows "and_then (c_zeroize h s k) (\<lambda>h'. c_zeroize h' (s + k) (n - k)) = c_zeroize h s n
     \<and> (\<exists>h'. c_zeroize h s n = Returns h')"
  using assms
  by (simp add: c_zeroize_closed valid_region_split [of k n] valid_region_fill fill_fill
      region_split [of k n])

theorem c_zeroize_decomposes_witness:
  "valid_region secret_buf 0x1000 32 \<and> (12 :: 64 word) \<le> 32
   \<and> and_then (c_zeroize secret_buf 0x1000 12) (\<lambda>h'. c_zeroize h' (0x1000 + 12) (32 - 12))
       = c_zeroize secret_buf 0x1000 32
   \<and> (\<exists>h'. c_zeroize secret_buf 0x1000 32 = Returns h')"
proof -
  have k: "(12 :: 64 word) \<le> 32" by simp
  show ?thesis
    using valid_secret_buf k c_zeroize_decomposes [OF valid_secret_buf k] by blast
qed

subsection \<open>Independence of the erased contents\<close>

text \<open>
  Claim C10. Two memories that differ only in the bytes of a valid region \<open>[s, s + n)\<close>
  are the same memory after \<^verbatim>\<open>c_zeroize(s, n)\<close>: nothing of the earlier contents
  of the region is left anywhere.
\<close>

theorem c_zeroize_erases_contents:
  assumes "valid_region h1 s n" and "writable h2 = writable h1"
    and "\<forall>a. a \<notin> region s n \<longrightarrow> bytes h2 a = bytes h1 a"
  shows "c_zeroize h1 s n = c_zeroize h2 s n \<and> (\<exists>h'. c_zeroize h1 s n = Returns h')"
proof -
  from assms(1,2) have "valid_region h2 s n" by (simp add: valid_region_def)
  with assms show ?thesis
    using fill_cong_outside [of h2 h1 "region s n" 0] by (simp add: c_zeroize_closed)
qed

text \<open>
  The buffer filled with \<open>0xFF\<close> and the buffer filled with \<open>0x7A\<close> differ at every
  address of the region and nowhere else; the call returns the same memory on both.
\<close>

theorem c_zeroize_erases_contents_witness:
  "valid_region secret_buf 0x1000 32 \<and> writable other_buf = writable secret_buf
   \<and> {a. bytes other_buf a \<noteq> bytes secret_buf a} = region 0x1000 32
   \<and> c_zeroize secret_buf 0x1000 32 = c_zeroize other_buf 0x1000 32
   \<and> (\<exists>h'. c_zeroize secret_buf 0x1000 32 = Returns h')"
proof -
  have w: "writable other_buf = writable secret_buf"
    by (simp add: other_buf_def secret_buf_def)
  have differ: "{a. bytes other_buf a \<noteq> bytes secret_buf a} = region 0x1000 32"
    by (simp add: region_secret_buf other_buf_def secret_buf_def)
  then have out: "\<forall>a. a \<notin> region 0x1000 32 \<longrightarrow> bytes other_buf a = bytes secret_buf a"
    by blast
  show ?thesis
    using valid_secret_buf w differ
      c_zeroize_erases_contents [OF valid_secret_buf w out]
    by blast
qed

end
